theory Spec2Isabelle
  imports Main "HOL-Library.Multiset"
begin

section \<open>Data model (types.ts)\<close>

text \<open>
  A journal entry. Strings are lists of characters, read as the code units of the
  JavaScript string (code units below 256). An optional field is an \<open>option\<close>:
  \<open>None\<close> is \<open>undefined\<close>. The field \<open>id\<close> is \<open>eid\<close> here.
\<close>

record entry =
  eid :: string
  date :: string
  content :: string
  ticketNumber :: "string option"
  imageUrl :: "string option"

text \<open>\<open>NewEntryPayload = Omit<JournalEntry, 'id' | 'date'>\<close>\<close>

record newEntryPayload =
  p_content :: string
  p_ticketNumber :: "string option"
  p_imageUrl :: "string option"

text \<open>
  \<open>UpdateEntryPayload = Partial<Omit<JournalEntry, 'id'>>\<close>: every key may be absent
  (\<open>None\<close>); a present optional key carries a value that may itself be \<open>undefined\<close>.
\<close>

record updateEntryPayload =
  u_date :: "string option"
  u_content :: "string option"
  u_ticketNumber :: "string option option"
  u_imageUrl :: "string option option"

section \<open>Platform functions\<close>

subsection \<open>Numbers and \<open>Array.prototype.sort\<close>\<close>

text \<open>
  \<open>new Date(s).getTime()\<close> is a time value in milliseconds or \<open>NaN\<close>; it is taken as
  a parameter \<open>tm :: string \<Rightarrow> int option\<close> of the functions below, \<open>None\<close> being
  \<open>NaN\<close>. A difference of two time values keeps its sign in floating point, and the sort
  uses only the sign, so the difference is taken over the integers.
\<close>

definition num_minus :: "int option \<Rightarrow> int option \<Rightarrow> int option" where
  "num_minus a b = (case a of None \<Rightarrow> None | Some x \<Rightarrow> (case b of None \<Rightarrow> None | Some y \<Rightarrow> Some (x - y)))"

text \<open>The sort reads a comparator result \<open>NaN\<close> as \<open>+0\<close>.\<close>

definition cmp_value :: "int option \<Rightarrow> int" where
  "cmp_value v = (case v of None \<Rightarrow> 0 | Some n \<Rightarrow> n)"

text \<open>
  \<open>Array.prototype.sort(cmp)\<close> is a stable sort: modelled as stable insertion, each
  element placed before the first element it does not compare greater than. For a
  consistent comparator the standard fixes this result. For a comparator that is not
  consistent (one that yields \<open>NaN\<close> on some pairs only) the standard leaves the order
  to the engine, and the model is the order insertion gives; that the result is a
  permutation of the array holds in every case.
\<close>

fun insert_by :: "('a \<Rightarrow> 'a \<Rightarrow> int option) \<Rightarrow> 'a \<Rightarrow> 'a list \<Rightarrow> 'a list" where
  "insert_by cmp x [] = [x]"
| "insert_by cmp x (y # ys) =
     (if cmp_value (cmp x y) \<le> 0 then x # y # ys else y # insert_by cmp x ys)"

definition Array_sort :: "('a \<Rightarrow> 'a \<Rightarrow> int option) \<Rightarrow> 'a list \<Rightarrow> 'a list" where
  "Array_sort cmp xs = foldr (insert_by cmp) xs []"

subsection \<open>\<open>String.prototype.trim\<close>\<close>

text \<open>White space and line terminators among the code units below 256.\<close>

definition isSpace :: "char \<Rightarrow> bool" where
  "isSpace c = (c \<in> {CHR 0x09, CHR 0x0A, CHR 0x0B, CHR 0x0C, CHR 0x0D, CHR 0x20, CHR 0xA0})"

definition trim :: "string \<Rightarrow> string" where
  "trim s = rev (dropWhile isSpace (rev (dropWhile isSpace s)))"

subsection \<open>\<open>Date\<close>\<close>

text \<open>
  A model of \<open>Date.parse\<close> on the date-time string format of the standard, for the
  forms \<open>YYYY\<close>, \<open>YYYY-MM\<close>, \<open>YYYY-MM-DD\<close> (read as UTC) and
  \<open>YYYY-MM-DDTHH:mm:ss.sssZ\<close>, and of \<open>Date.prototype.toISOString\<close>. What an
  engine accepts beyond these forms is its own choice; \<open>isoTime\<close> reads every other
  string as an invalid date. It is used where a concrete input is evaluated; the general
  theorems hold for every \<open>tm\<close>.
\<close>

definition isDigit :: "char \<Rightarrow> bool" where
  "isDigit c = (c \<in> set ''0123456789'')"

definition digitValue :: "char \<Rightarrow> int" where
  "digitValue c = of_char c - 48"

definition decimal :: "string \<Rightarrow> int" where
  "decimal s = foldl (\<lambda>n c. 10 * n + digitValue c) 0 s"

definition digits :: "string \<Rightarrow> int option" where
  "digits s = (if s \<noteq> [] \<and> list_all isDigit s then Some (decimal s) else None)"

definition msPerDay :: int where
  "msPerDay = 86400000"

definition isLeapYear :: "int \<Rightarrow> bool" where
  "isLeapYear y = (y mod 4 = 0 \<and> (y mod 100 \<noteq> 0 \<or> y mod 400 = 0))"

definition DayFromYear :: "int \<Rightarrow> int" where
  "DayFromYear y = 365 * (y - 1970) + (y - 1969) div 4 - (y - 1901) div 100 + (y - 1601) div 400"

definition DaysInMonth :: "int \<Rightarrow> int \<Rightarrow> int" where
  "DaysInMonth y m =
     (if m = 2 then (if isLeapYear y then 29 else 28)
      else if m = 4 \<or> m = 6 \<or> m = 9 \<or> m = 11 then 30 else 31)"

definition MakeDay :: "int \<Rightarrow> int \<Rightarrow> int \<Rightarrow> int" where
  "MakeDay y m d = DayFromYear y + sum_list (map (DaysInMonth y) [1..m - 1]) + d - 1"

definition isoDay :: "string \<Rightarrow> int option" where
  "isoDay s =
     (if length s = 4 then
        (case digits s of None \<Rightarrow> None | Some y \<Rightarrow> Some (MakeDay y 1 1))
      else if length s = 7 \<and> s ! 4 = CHR ''-'' then
        (case digits (take 4 s) of None \<Rightarrow> None | Some y \<Rightarrow>
         (case digits (drop 5 s) of None \<Rightarrow> None | Some m \<Rightarrow>
            if 1 \<le> m \<and> m \<le> 12 then Some (MakeDay y m 1) else None))
      else if length s = 10 \<and> s ! 4 = CHR ''-'' \<and> s ! 7 = CHR ''-'' then
        (case digits (take 4 s) of None \<Rightarrow> None | Some y \<Rightarrow>
         (case digits (take 2 (drop 5 s)) of None \<Rightarrow> None | Some m \<Rightarrow>
          (case digits (drop 8 s) of None \<Rightarrow> None | Some d \<Rightarrow>
            if 1 \<le> m \<and> m \<le> 12 \<and> 1 \<le> d \<and> d \<le> DaysInMonth y m
            then Some (MakeDay y m d) else None)))
      else None)"

definition isoClock :: "string \<Rightarrow> int option" where
  "isoClock s =
     (if length s = 12 \<and> s ! 2 = CHR '':'' \<and> s ! 5 = CHR '':'' \<and> s ! 8 = CHR ''.'' then
        (case digits (take 2 s) of None \<Rightarrow> None | Some h \<Rightarrow>
         (case digits (take 2 (drop 3 s)) of None \<Rightarrow> None | Some mi \<Rightarrow>
          (case digits (take 2 (drop 6 s)) of None \<Rightarrow> None | Some sec \<Rightarrow>
           (case digits (drop 9 s) of None \<Rightarrow> None | Some ms \<Rightarrow>
              if mi \<le> 59 \<and> sec \<le> 59 \<and> (h \<le> 23 \<or> (h = 24 \<and> mi = 0 \<and> sec = 0 \<and> ms = 0))
              then Some (((h * 60 + mi) * 60 + sec) * 1000 + ms) else None))))
      else None)"

definition isoTime :: "string \<Rightarrow> int option" where
  "isoTime s =
     (if length s = 24 \<and> s ! 10 = CHR ''T'' \<and> s ! 23 = CHR ''Z'' then
        (case isoDay (take 10 s) of None \<Rightarrow> None | Some d \<Rightarrow>
         (case isoClock (take 12 (drop 11 s)) of None \<Rightarrow> None | Some c \<Rightarrow> Some (d * msPerDay + c)))
      else (case isoDay s of None \<Rightarrow> None | Some d \<Rightarrow> Some (d * msPerDay)))"

definition digitChar :: "int \<Rightarrow> char" where
  "digitChar d = ''0123456789'' ! nat (d mod 10)"

fun pad :: "nat \<Rightarrow> int \<Rightarrow> string" where
  "pad 0 k = []"
| "pad (Suc n) k = pad n (k div 10) @ [digitChar k]"

definition civil :: "int \<Rightarrow> int \<times> int \<times> int" where
  "civil day =
     (let z = day + 719468;
          era = z div 146097;
          doe = z mod 146097;
          yoe = (doe - doe div 1460 + doe div 36524 - doe div 146096) div 365;
          doy = doe - (365 * yoe + yoe div 4 - yoe div 100);
          mp = (5 * doy + 2) div 153;
          d = doy - (153 * mp + 2) div 5 + 1;
          m = (if mp < 10 then mp + 3 else mp - 9);
          y = yoe + era * 400 + (if m \<le> 2 then 1 else 0)
      in (y, m, d))"

definition toISOString :: "int \<Rightarrow> string" where
  "toISOString t =
     (let (y, m, d) = civil (t div msPerDay);
          ms = t mod msPerDay;
          year = (if 0 \<le> y \<and> y \<le> 9999 then pad 4 y
                  else (if y < 0 then ''-'' else ''+'') @ pad 6 \<bar>y\<bar>)
      in year @ ''-'' @ pad 2 m @ ''-'' @ pad 2 d @ ''T'' @ pad 2 (ms div 3600000) @ '':''
         @ pad 2 (ms div 60000 mod 60) @ '':'' @ pad 2 (ms div 1000 mod 60) @ ''.''
         @ pad 3 (ms mod 1000) @ ''Z'')"

subsection \<open>Strings and regular expressions\<close>

text \<open>\<open>String.prototype.toLowerCase\<close> on the code units below 256.\<close>

definition upperChars :: string where
  "upperChars = ''ABCDEFGHIJKLMNOPQRSTUVWXYZ'' @
     [CHR 0xC0, CHR 0xC1, CHR 0xC2, CHR 0xC3, CHR 0xC4, CHR 0xC5, CHR 0xC6, CHR 0xC7,
      CHR 0xC8, CHR 0xC9, CHR 0xCA, CHR 0xCB, CHR 0xCC, CHR 0xCD, CHR 0xCE, CHR 0xCF,
      CHR 0xD0, CHR 0xD1, CHR 0xD2, CHR 0xD3, CHR 0xD4, CHR 0xD5, CHR 0xD6,
      CHR 0xD8, CHR 0xD9, CHR 0xDA, CHR 0xDB, CHR 0xDC, CHR 0xDD, CHR 0xDE]"

definition lowerChars :: string where
  "lowerChars = ''abcdefghijklmnopqrstuvwxyz'' @
     [CHR 0xE0, CHR 0xE1, CHR 0xE2, CHR 0xE3, CHR 0xE4, CHR 0xE5, CHR 0xE6, CHR 0xE7,
      CHR 0xE8, CHR 0xE9, CHR 0xEA, CHR 0xEB, CHR 0xEC, CHR 0xED, CHR 0xEE, CHR 0xEF,
      CHR 0xF0, CHR 0xF1, CHR 0xF2, CHR 0xF3, CHR 0xF4, CHR 0xF5, CHR 0xF6,
      CHR 0xF8, CHR 0xF9, CHR 0xFA, CHR 0xFB, CHR 0xFC, CHR 0xFD, CHR 0xFE]"

definition toLowerCase :: "string \<Rightarrow> string" where
  "toLowerCase s =
     map (\<lambda>c. case map_of (zip upperChars lowerChars) c of None \<Rightarrow> c | Some l \<Rightarrow> l) s"

text \<open>\<open>String.prototype.includes\<close>\<close>

fun includesStr :: "string \<Rightarrow> string \<Rightarrow> bool" where
  "includesStr [] sub = (sub = [])"
| "includesStr (c # cs) sub = (take (length sub) (c # cs) = sub \<or> includesStr cs sub)"

text \<open>\<open>Array.prototype.findIndex\<close>: the index, or \<open>-1\<close>.\<close>

fun findIndex :: "('a \<Rightarrow> bool) \<Rightarrow> 'a list \<Rightarrow> int" where
  "findIndex P [] = - 1"
| "findIndex P (x # xs) =
     (if P x then 0 else (let r = findIndex P xs in if r = - 1 then - 1 else r + 1))"

text \<open>\<open>xs[i]\<close>: \<open>None\<close> is \<open>undefined\<close>.\<close>

definition at_index :: "'a list \<Rightarrow> int \<Rightarrow> 'a option" where
  "at_index xs i = (if 0 \<le> i \<and> i < int (length xs) then Some (xs ! nat i) else None)"

text \<open>
  The regular expressions of the adapter are sequences of character classes, each with a
  greedy repetition count \<open>{lo,hi}\<close> (\<open>None\<close>: unbounded). \<open>matchHere\<close> is the
  backtracking matcher at the start of the string: for each item it tries the longest
  repetition first and gives back one character at a time; it returns the length matched.
\<close>

type_synonym regexItem = "(char \<Rightarrow> bool) \<times> nat \<times> nat option"

fun first_some :: "'a option list \<Rightarrow> 'a option" where
  "first_some [] = None"
| "first_some (None # xs) = first_some xs"
| "first_some (Some x # xs) = Some x"

fun matchHere :: "regexItem list \<Rightarrow> string \<Rightarrow> nat option" where
  "matchHere [] s = Some 0"
| "matchHere ((cls, lo, hi) # items) s =
     (let avail = length (takeWhile cls s);
          most = (case hi of None \<Rightarrow> avail | Some h \<Rightarrow> min h avail)
      in first_some
           (map (\<lambda>j. case matchHere items (drop j s) of None \<Rightarrow> None | Some n \<Rightarrow> Some (j + n))
                (rev [lo..<Suc most])))"

text \<open>\<open>s.match(re)\<close> without the \<open>g\<close> flag: the leftmost match, \<open>None\<close> for \<open>null\<close>;
  only element \<open>[0]\<close> of the result is used.\<close>

fun regexMatch :: "regexItem list \<Rightarrow> string \<Rightarrow> string option" where
  "regexMatch items [] = (case matchHere items [] of None \<Rightarrow> None | Some n \<Rightarrow> Some [])"
| "regexMatch items (c # cs) =
     (case matchHere items (c # cs) of
        None \<Rightarrow> regexMatch items cs
      | Some n \<Rightarrow> Some (take n (c # cs)))"

definition once :: "(char \<Rightarrow> bool) \<Rightarrow> regexItem" where
  "once cls = (cls, 1, Some 1)"

definition digitOrSpace :: "char \<Rightarrow> bool" where
  "digitOrSpace c = (isDigit c \<or> isSpace c)"

text \<open>\<open>/\d[\d\s]{5,}\d/\<close>\<close>

definition reTags :: "regexItem list" where
  "reTags = [once isDigit, (digitOrSpace, 5, None), once isDigit]"

text \<open>\<open>/Ticket:?\s*(#?[\d\s]+)/i\<close>; the flag \<open>i\<close> bears on the six letters only, and
  the group plays no part in element \<open>[0]\<close>.\<close>

definition reContent :: "regexItem list" where
  "reContent =
     [once (\<lambda>c. c = CHR ''T'' \<or> c = CHR ''t''), once (\<lambda>c. c = CHR ''I'' \<or> c = CHR ''i''),
      once (\<lambda>c. c = CHR ''C'' \<or> c = CHR ''c''), once (\<lambda>c. c = CHR ''K'' \<or> c = CHR ''k''),
      once (\<lambda>c. c = CHR ''E'' \<or> c = CHR ''e''), once (\<lambda>c. c = CHR ''T'' \<or> c = CHR ''t''),
      (\<lambda>c. c = CHR '':'', 0, Some 1), (isSpace, 0, None),
      (\<lambda>c. c = CHR ''#'', 0, Some 1), (digitOrSpace, 1, None)]"

section \<open>The journal hook (hooks/useJournal.ts)\<close>

text \<open>\<open>(a, b) => new Date(b.date).getTime() - new Date(a.date).getTime()\<close>\<close>

definition cmpDesc :: "(string \<Rightarrow> int option) \<Rightarrow> entry \<Rightarrow> entry \<Rightarrow> int option" where
  "cmpDesc tm a b = num_minus (tm (date b)) (tm (date a))"

text \<open>\<open>(a, b) => new Date(a.date).getTime() - new Date(b.date).getTime()\<close>\<close>

definition cmpAsc :: "(string \<Rightarrow> int option) \<Rightarrow> entry \<Rightarrow> entry \<Rightarrow> int option" where
  "cmpAsc tm a b = num_minus (tm (date a)) (tm (date b))"

text \<open>
  \<open>addEntry\<close>: the state updater, with the guard in front. \<open>now\<close> is
  \<open>new Date().toISOString()\<close> and \<open>newId\<close> the generated id.
\<close>

definition addEntry :: "string \<Rightarrow> string \<Rightarrow> newEntryPayload \<Rightarrow> entry list \<Rightarrow> entry list" where
  "addEntry newId now payload prevEntries =
     (if trim (p_content payload) = [] then prevEntries
      else \<lparr>eid = newId, date = now, content = p_content payload,
             ticketNumber = p_ticketNumber payload, imageUrl = p_imageUrl payload\<rparr> # prevEntries)"

definition deleteEntry :: "string \<Rightarrow> entry list \<Rightarrow> entry list" where
  "deleteEntry i prevEntries = filter (\<lambda>e. eid e \<noteq> i) prevEntries"

text \<open>The spread \<open>{ ...entry, ...payload }\<close>: every key present in the payload wins.\<close>

definition merge_payload :: "entry \<Rightarrow> updateEntryPayload \<Rightarrow> entry" where
  "merge_payload e p =
     \<lparr>eid = eid e,
      date = (case u_date p of None \<Rightarrow> date e | Some d \<Rightarrow> d),
      content = (case u_content p of None \<Rightarrow> content e | Some c \<Rightarrow> c),
      ticketNumber = (case u_ticketNumber p of None \<Rightarrow> ticketNumber e | Some t \<Rightarrow> t),
      imageUrl = (case u_imageUrl p of None \<Rightarrow> imageUrl e | Some u \<Rightarrow> u)\<rparr>"

definition updateEntry :: "string \<Rightarrow> updateEntryPayload \<Rightarrow> entry list \<Rightarrow> entry list" where
  "updateEntry i payload prevEntries =
     map (\<lambda>e. if eid e = i then merge_payload e payload else e) prevEntries"

text \<open>The payload \<open>{ content: "" }\<close>.\<close>

definition emptyContent :: updateEntryPayload where
  "emptyContent = \<lparr>u_date = None, u_content = Some [], u_ticketNumber = None, u_imageUrl = None\<rparr>"

text \<open>The signature \<open>`${e.date}-${e.content}`\<close>.\<close>

definition signature :: "entry \<Rightarrow> string" where
  "signature e = date e @ ''-'' @ content e"

text \<open>The filter of \<open>importEntries\<close>, which grows the set while it runs.\<close>

fun uniqueNew :: "string set \<Rightarrow> entry list \<Rightarrow> entry list" where
  "uniqueNew sigs [] = []"
| "uniqueNew sigs (e # es) =
     (if signature e \<in> sigs then uniqueNew sigs es
      else e # uniqueNew (insert (signature e) sigs) es)"

definition uniqueNewEntries :: "entry list \<Rightarrow> entry list \<Rightarrow> entry list" where
  "uniqueNewEntries prevEntries importedEntries =
     uniqueNew (set (map signature prevEntries)) importedEntries"

text \<open>\<open>e.id || fresh\<close>: the empty id is the falsy one; \<open>fresh k\<close> is the id generated
  for the \<open>k\<close>-th surviving candidate.\<close>

fun sanitize :: "(nat \<Rightarrow> string) \<Rightarrow> nat \<Rightarrow> entry list \<Rightarrow> entry list" where
  "sanitize fresh k [] = []"
| "sanitize fresh k (e # es) =
     e\<lparr>eid := (if eid e = [] then fresh k else eid e)\<rparr> # sanitize fresh (Suc k) es"

definition importEntries ::
  "(string \<Rightarrow> int option) \<Rightarrow> (nat \<Rightarrow> string) \<Rightarrow> entry list \<Rightarrow> entry list \<Rightarrow> entry list" where
  "importEntries tm fresh importedEntries prevEntries =
     Array_sort (cmpDesc tm)
       (sanitize fresh 0 (uniqueNewEntries prevEntries importedEntries) @ prevEntries)"

text \<open>\<open>Array.prototype.join\<close>\<close>

fun join :: "string \<Rightarrow> string list \<Rightarrow> string" where
  "join sep [] = []"
| "join sep [x] = x"
| "join sep (x # y # ys) = x @ sep @ join sep (y # ys)"

text \<open>One block of the compiled text; \<open>fmt\<close> is
  \<open>new Date(d).toLocaleString('en-US', ...)\<close>, which depends on the host's time zone.\<close>

definition block :: "(string \<Rightarrow> string) \<Rightarrow> entry \<Rightarrow> string" where
  "block fmt e = ''--- Entry from '' @ fmt (date e) @ '' ---'' @ [CHR 0x0A] @ content e"

definition entriesToCompile :: "(string \<Rightarrow> int option) \<Rightarrow> string \<Rightarrow> entry list \<Rightarrow> entry list" where
  "entriesToCompile tm t entries =
     Array_sort (cmpAsc tm) (filter (\<lambda>e. ticketNumber e = Some t) entries)"

definition compiledEntry ::
  "(string \<Rightarrow> int option) \<Rightarrow> (string \<Rightarrow> string) \<Rightarrow> string \<Rightarrow> string \<Rightarrow> entry list \<Rightarrow> entry" where
  "compiledEntry tm fmt newId t entries =
     (let srcs = entriesToCompile tm t entries; newestEntry = last srcs
      in \<lparr>eid = newId, date = date newestEntry,
          content = join [CHR 0x0A, CHR 0x0A] (map (block fmt) srcs),
          ticketNumber = Some t, imageUrl = imageUrl newestEntry\<rparr>)"

text \<open>\<open>compileEntriesByTicketNumber\<close>: the next state; the early return leaves the
  state as it is.\<close>

definition compileEntriesByTicketNumber ::
  "(string \<Rightarrow> int option) \<Rightarrow> (string \<Rightarrow> string) \<Rightarrow> string \<Rightarrow> string \<Rightarrow> entry list \<Rightarrow> entry list" where
  "compileEntriesByTicketNumber tm fmt newId t entries =
     (if length (filter (\<lambda>e. ticketNumber e = Some t) entries) < 2 then entries
      else compiledEntry tm fmt newId t entries
             # filter (\<lambda>e. ticketNumber e \<noteq> Some t) entries)"

text \<open>\<open>sortedEntries\<close>: what the hook hands to its readers on every render.\<close>

definition sortedEntries :: "(string \<Rightarrow> int option) \<Rightarrow> entry list \<Rightarrow> entry list" where
  "sortedEntries tm entries = Array_sort (cmpDesc tm) entries"

section \<open>The editor (\<open>JournalEditor\<close>)\<close>

text \<open>
  The submit button of the editor, \<open>disabled={!content.trim() && !imageUrl}\<close>: the
  empty string and \<open>undefined\<close> are the falsy values of \<open>imageUrl\<close>.
\<close>

definition submitDisabled :: "string \<Rightarrow> string option \<Rightarrow> bool" where
  "submitDisabled draft img =
     (trim draft = [] \<and> (case img of None \<Rightarrow> True | Some u \<Rightarrow> u = []))"

text \<open>
  \<open>handleSubmit\<close>, as far as the entries go: \<open>onAddEntry({ content, ticketNumber,
  imageUrl })\<close>, which the application passes on to \<open>addEntry\<close>; the form is reset
  afterwards, whatever \<open>addEntry\<close> did. The ticket number of the form is a string.
  \<open>draft\<close>, \<open>ticket\<close> and \<open>img\<close> are the form's \<open>content\<close>,
  \<open>ticketNumber\<close> and \<open>imageUrl\<close>.
\<close>

definition handleSubmit ::
  "string \<Rightarrow> string \<Rightarrow> string \<Rightarrow> string \<Rightarrow> string option \<Rightarrow> entry list \<Rightarrow> entry list" where
  "handleSubmit newId now draft ticket img entries =
     addEntry newId now
       \<lparr>p_content = draft, p_ticketNumber = Some ticket, p_imageUrl = img\<rparr> entries"

section \<open>The CSV adapter (\<open>parseCSV\<close> of the Settings component)\<close>

datatype error = TypeError

text \<open>\<open>text.split(/\r?\n/)\<close>\<close>

fun splitLines :: "string \<Rightarrow> string \<Rightarrow> string list" where
  "splitLines cur [] = [cur]"
| "splitLines cur (c # cs) =
     (if c = CHR 0x0A then cur # splitLines [] cs
      else (case cs of
              [] \<Rightarrow> splitLines (cur @ [c]) cs
            | d # ds \<Rightarrow>
                if c = CHR 0x0D \<and> d = CHR 0x0A then cur # splitLines [] ds
                else splitLines (cur @ [c]) cs))"

text \<open>The loop of \<open>parseLine\<close>, with \<open>current\<close>, \<open>inQuotes\<close> and \<open>result\<close> as its state.\<close>

fun parseLine_loop :: "string \<Rightarrow> string \<Rightarrow> bool \<Rightarrow> string list \<Rightarrow> string list" where
  "parseLine_loop [] current inQuotes result = result @ [current]"
| "parseLine_loop (c # cs) current inQuotes result =
     (if c = CHR 0x22 then
        (case cs of
           [] \<Rightarrow> parseLine_loop cs current (\<not> inQuotes) result
         | d # ds \<Rightarrow>
             if inQuotes \<and> d = CHR 0x22 then parseLine_loop ds (current @ [CHR 0x22]) inQuotes result
             else parseLine_loop cs current (\<not> inQuotes) result)
      else if c = CHR '','' \<and> \<not> inQuotes then parseLine_loop cs [] inQuotes (result @ [current])
      else parseLine_loop cs (current @ [c]) inQuotes result)"

definition parseLine :: "string \<Rightarrow> string list" where
  "parseLine line = parseLine_loop line [] False []"

text \<open>\<open>h.trim().toLowerCase().replace(/['"]/g, '')\<close>\<close>

definition headerName :: "string \<Rightarrow> string" where
  "headerName h = filter (\<lambda>c. c \<noteq> CHR 0x27 \<and> c \<noteq> CHR 0x22) (toLowerCase (trim h))"

text \<open>\<open>content.replace(/^"|"$/g, '').replace(/""/g, '"')\<close>\<close>

definition stripOuterQuotes :: "string \<Rightarrow> string" where
  "stripOuterQuotes s =
     (let s1 = (case s of [] \<Rightarrow> [] | c # cs \<Rightarrow> if c = CHR 0x22 then cs else s)
      in if s1 \<noteq> [] \<and> last s1 = CHR 0x22 then butlast s1 else s1)"

fun undoubleQuotes :: "string \<Rightarrow> string" where
  "undoubleQuotes (c # d # cs) =
     (if c = CHR 0x22 \<and> d = CHR 0x22 then CHR 0x22 # undoubleQuotes cs
      else c # undoubleQuotes (d # cs))"
| "undoubleQuotes cs = cs"

text \<open>
  One data row. \<open>Inr None\<close> is \<open>continue\<close>. \<open>tm\<close> is \<open>new Date(s).getTime()\<close>, \<open>now\<close> is
  \<open>new Date().toISOString()\<close> and \<open>newId\<close> the generated id. When the tags column is
  resolved and the row has no such column, \<open>tags\<close> is \<open>undefined\<close> and \<open>tags.match\<close> throws.
\<close>

definition parseRow ::
  "(string \<Rightarrow> int option) \<Rightarrow> string \<Rightarrow> string \<Rightarrow> int \<Rightarrow> int \<Rightarrow> int \<Rightarrow> string \<Rightarrow> error + entry option" where
  "parseRow tm now newId dateIdx textIdx tagsIdx line =
     (if trim line = [] then Inr None
      else
        (let columns = parseLine line in
         if int (length columns) \<le> max dateIdx textIdx then Inr None
         else
           (let dateStr = columns ! nat dateIdx;
                content = columns ! nat textIdx
            in case (if tagsIdx \<noteq> - 1 then at_index columns tagsIdx else Some []) of
                 None \<Rightarrow> Inl TypeError
               | Some tags \<Rightarrow>
                   (let ticketMatch =
                          (case regexMatch reTags tags of
                             Some m \<Rightarrow> Some m
                           | None \<Rightarrow> regexMatch reContent content);
                        ticketNumber =
                          (case ticketMatch of
                             None \<Rightarrow> None
                           | Some m \<Rightarrow> Some (trim (filter digitOrSpace m)));
                        date = (case tm dateStr of Some t \<Rightarrow> toISOString t | None \<Rightarrow> now)
                    in Inr (Some \<lparr>eid = newId, date = date,
                                  content = undoubleQuotes (stripOuterQuotes content),
                                  ticketNumber = ticketNumber, imageUrl = None\<rparr>)))))"

text \<open>The loop over the data rows, from line index \<open>i\<close>; \<open>now i\<close> and \<open>newId i\<close> are the
  clock reading and the id generated at row \<open>i\<close>.\<close>

fun parseRows ::
  "(string \<Rightarrow> int option) \<Rightarrow> (nat \<Rightarrow> string) \<Rightarrow> (nat \<Rightarrow> string) \<Rightarrow> int \<Rightarrow> int \<Rightarrow> int \<Rightarrow>
   nat \<Rightarrow> string list \<Rightarrow> error + entry list" where
  "parseRows tm now newId dateIdx textIdx tagsIdx i [] = Inr []"
| "parseRows tm now newId dateIdx textIdx tagsIdx i (line # lines) =
     (case parseRow tm (now i) (newId i) dateIdx textIdx tagsIdx line of
        Inl err \<Rightarrow> Inl err
      | Inr None \<Rightarrow> parseRows tm now newId dateIdx textIdx tagsIdx (Suc i) lines
      | Inr (Some e) \<Rightarrow>
          (case parseRows tm now newId dateIdx textIdx tagsIdx (Suc i) lines of
             Inl err \<Rightarrow> Inl err
           | Inr es \<Rightarrow> Inr (e # es)))"

definition parseCSV ::
  "(string \<Rightarrow> int option) \<Rightarrow> (nat \<Rightarrow> string) \<Rightarrow> (nat \<Rightarrow> string) \<Rightarrow> string \<Rightarrow> error + entry list" where
  "parseCSV tm now newId text =
     (let lines = splitLines [] text in
      if length lines < 2 then Inr []
      else
        (let headers = map headerName (parseLine (hd lines));
             dateIdx = findIndex (\<lambda>h. includesStr h ''date'' \<or> includesStr h ''created'') headers;
             textIdx = findIndex (\<lambda>h. h = ''entry_text'' \<or> h = ''text'' \<or> h = ''content'' \<or> h = ''note'') headers;
             tagsIdx = findIndex (\<lambda>h. includesStr h ''tags'' \<or> includesStr h ''label'') headers
         in if dateIdx = - 1 \<or> textIdx = - 1 then Inr []
            else parseRows tm now newId dateIdx textIdx tagsIdx 1 (tl lines)))"

section \<open>Sequences of mutations\<close>

text \<open>
  The hook sorts the state array in place on every render (\<open>entries.sort(...)\<close>), so
  the array a mutation starts from is the one the readers saw. A mutation sets the state
  and the render that follows sorts it.
\<close>

datatype mutation =
    Add string string newEntryPayload
  | Delete string
  | Update string updateEntryPayload
  | Import "nat \<Rightarrow> string" "entry list"
  | Compile string string

fun apply_mutation ::
  "(string \<Rightarrow> int option) \<Rightarrow> (string \<Rightarrow> string) \<Rightarrow> mutation \<Rightarrow> entry list \<Rightarrow> entry list" where
  "apply_mutation tm fmt (Add newId now payload) s = addEntry newId now payload s"
| "apply_mutation tm fmt (Delete i) s = deleteEntry i s"
| "apply_mutation tm fmt (Update i payload) s = updateEntry i payload s"
| "apply_mutation tm fmt (Import fresh importedEntries) s = importEntries tm fresh importedEntries s"
| "apply_mutation tm fmt (Compile newId t) s = compileEntriesByTicketNumber tm fmt newId t s"

text \<open>The snapshot the readers see after the mutations \<open>ms\<close>, from the stored state \<open>s\<close>.\<close>

definition run ::
  "(string \<Rightarrow> int option) \<Rightarrow> (string \<Rightarrow> string) \<Rightarrow> mutation list \<Rightarrow> entry list \<Rightarrow> entry list" where
  "run tm fmt ms s =
     foldl (\<lambda>st m. sortedEntries tm (apply_mutation tm fmt m st)) (sortedEntries tm s) ms"

text \<open>The array as the last mutation set it, before the render sorts it.\<close>

definition stored ::
  "(string \<Rightarrow> int option) \<Rightarrow> (string \<Rightarrow> string) \<Rightarrow> mutation list \<Rightarrow> entry list \<Rightarrow> entry list" where
  "stored tm fmt ms s =
     (if ms = [] then s else apply_mutation tm fmt (last ms) (run tm fmt (butlast ms) s))"

section \<open>Properties stated about the journal\<close>

text \<open>Every date of the list parses.\<close>

definition validEntries :: "(string \<Rightarrow> int option) \<Rightarrow> entry list \<Rightarrow> bool" where
  "validEntries tm es = list_all (\<lambda>e. tm (date e) \<noteq> None) es"

fun validMutation :: "(string \<Rightarrow> int option) \<Rightarrow> mutation \<Rightarrow> bool" where
  "validMutation tm (Add newId now payload) = (tm now \<noteq> None)"
| "validMutation tm (Delete i) = True"
| "validMutation tm (Update i payload) = (case u_date payload of None \<Rightarrow> True | Some d \<Rightarrow> tm d \<noteq> None)"
| "validMutation tm (Import fresh importedEntries) = validEntries tm importedEntries"
| "validMutation tm (Compile newId t) = True"

text \<open>\<open>a\<close> is at least as recent as \<open>b\<close>: JavaScript's \<open>>=\<close> on the two time values,
  false when one of them is \<open>NaN\<close>.\<close>

definition notOlder :: "(string \<Rightarrow> int option) \<Rightarrow> entry \<Rightarrow> entry \<Rightarrow> bool" where
  "notOlder tm a b =
     (case tm (date a) of None \<Rightarrow> False
      | Some x \<Rightarrow> (case tm (date b) of None \<Rightarrow> False | Some y \<Rightarrow> y \<le> x))"

definition sortedDesc :: "(string \<Rightarrow> int option) \<Rightarrow> entry list \<Rightarrow> bool" where
  "sortedDesc tm es = sorted_wrt (notOlder tm) es"

definition sortedAsc :: "(string \<Rightarrow> int option) \<Rightarrow> entry list \<Rightarrow> bool" where
  "sortedAsc tm es = sorted_wrt (\<lambda>a b. notOlder tm b a) es"

text \<open>The strings \<open>cs\<close> occur in \<open>s\<close> one after the other, in this order.\<close>

inductive in_order :: "string list \<Rightarrow> string \<Rightarrow> bool" where
  in_order_Nil: "in_order [] s"
| in_order_Cons: "in_order cs post \<Longrightarrow> in_order (c # cs) (pre @ c @ post)"

text \<open>The same, computed: each string is looked for after the end of the first occurrence
  of the one before it.\<close>

fun after_first :: "string \<Rightarrow> string \<Rightarrow> string option" where
  "after_first c [] = (if c = [] then Some [] else None)"
| "after_first c (x # xs) =
     (if take (length c) (x # xs) = c then Some (drop (length c) (x # xs)) else after_first c xs)"

fun occur_in_order :: "string list \<Rightarrow> string \<Rightarrow> bool" where
  "occur_in_order [] s = True"
| "occur_in_order (c # cs) s =
     (case after_first c s of None \<Rightarrow> False | Some rest \<Rightarrow> occur_in_order cs rest)"

section \<open>Permutation facts of the sort\<close>

lemma mset_insert_by: "mset (insert_by cmp x ys) = add_mset x (mset ys)"
  by (induction ys) simp_all

lemma mset_Array_sort: "mset (Array_sort cmp xs) = mset xs"
  unfolding Array_sort_def by (induction xs) (simp_all add: mset_insert_by)

lemma set_Array_sort: "set (Array_sort cmp xs) = set xs"
  using mset_Array_sort [of cmp xs] by (metis set_mset_mset)

lemma length_Array_sort: "length (Array_sort cmp xs) = length xs"
  using mset_Array_sort [of cmp xs] by (metis size_mset)

lemma set_insert_by: "set (insert_by cmp x ys) = insert x (set ys)"
  by (induction ys) auto

lemma notOlder_trans: "notOlder tm a b \<Longrightarrow> notOlder tm b c \<Longrightarrow> notOlder tm a c"
  by (auto simp: notOlder_def split: option.splits)

lemma cmpDesc_le: "tm (date x) \<noteq> None \<Longrightarrow> tm (date y) \<noteq> None \<Longrightarrow>
  cmp_value (cmpDesc tm x y) \<le> 0 \<longleftrightarrow> notOlder tm x y"
  by (auto simp: cmp_value_def cmpDesc_def num_minus_def notOlder_def split: option.splits)

lemma cmpDesc_gt: "tm (date x) \<noteq> None \<Longrightarrow> tm (date y) \<noteq> None \<Longrightarrow>
  \<not> cmp_value (cmpDesc tm x y) \<le> 0 \<Longrightarrow> notOlder tm y x"
  by (auto simp: cmp_value_def cmpDesc_def num_minus_def notOlder_def split: option.splits)

lemma sortedDesc_insert_by:
  assumes "sorted_wrt (notOlder tm) ys" "tm (date x) \<noteq> None" "\<forall>y\<in>set ys. tm (date y) \<noteq> None"
  shows "sorted_wrt (notOlder tm) (insert_by (cmpDesc tm) x ys)"
  using assms
proof (induction ys)
  case Nil
  then show ?case by simp
next
  case (Cons y ys)
  show ?case
  proof (cases "cmp_value (cmpDesc tm x y) \<le> 0")
    case True
    then have xy: "notOlder tm x y" using Cons.prems cmpDesc_le by simp
    have "\<forall>z\<in>set ys. notOlder tm x z"
      using xy Cons.prems(1) notOlder_trans by auto
    then show ?thesis using True xy Cons.prems(1) by simp
  next
    case False
    then have yx: "notOlder tm y x" using Cons.prems cmpDesc_gt by simp
    have "sorted_wrt (notOlder tm) (insert_by (cmpDesc tm) x ys)"
      using Cons by simp
    then show ?thesis using False yx Cons.prems(1) by (auto simp: set_insert_by)
  qed
qed

lemma validEntries_set: "validEntries tm es \<longleftrightarrow> (\<forall>e\<in>set es. tm (date e) \<noteq> None)"
  by (simp add: validEntries_def list_all_iff)

lemma sortedDesc_Array_sort:
  "validEntries tm xs \<Longrightarrow> sortedDesc tm (Array_sort (cmpDesc tm) xs)"
  unfolding sortedDesc_def Array_sort_def
proof (induction xs)
  case Nil
  then show ?case by simp
next
  case (Cons x xs)
  have "set (foldr (insert_by (cmpDesc tm)) xs []) = set xs"
    using set_Array_sort [of "cmpDesc tm" xs] by (simp add: Array_sort_def)
  then show ?case using Cons sortedDesc_insert_by [of tm "foldr (insert_by (cmpDesc tm)) xs []" x]
    by (simp add: validEntries_set)
qed

lemma filter_insert_by_desc:
  "filter (\<lambda>e. tm (date e) = Some k) (insert_by (cmpDesc tm) x ys) =
     (if tm (date x) = Some k then x # filter (\<lambda>e. tm (date e) = Some k) ys
      else filter (\<lambda>e. tm (date e) = Some k) ys)"
  by (induction ys) (auto simp: cmp_value_def cmpDesc_def num_minus_def split: option.splits)

lemma stable_Array_sort_desc:
  "filter (\<lambda>e. tm (date e) = Some k) (Array_sort (cmpDesc tm) xs) = filter (\<lambda>e. tm (date e) = Some k) xs"
  unfolding Array_sort_def by (induction xs) (simp_all add: filter_insert_by_desc)

section \<open>Dates stay valid along the mutations\<close>

lemma set_uniqueNew: "set (uniqueNew sigs es) \<subseteq> set es"
  by (induction es arbitrary: sigs) auto

lemma date_sanitize: "map date (sanitize fresh k es) = map date es"
  by (induction es arbitrary: k) simp_all

lemma validEntries_dates: "validEntries tm es \<longleftrightarrow> list_all (\<lambda>d. tm d \<noteq> None) (map date es)"
  by (simp add: validEntries_def list_all_iff)

lemma validEntries_sanitize: "validEntries tm (sanitize fresh k es) = validEntries tm es"
  by (simp add: validEntries_dates date_sanitize)

lemma validEntries_subset: "validEntries tm es \<Longrightarrow> set xs \<subseteq> set es \<Longrightarrow> validEntries tm xs"
  by (auto simp: validEntries_set)

lemma validEntries_sort: "validEntries tm (Array_sort cmp es) = validEntries tm es"
  by (simp add: validEntries_set set_Array_sort)

lemma validEntries_append: "validEntries tm (xs @ ys) \<longleftrightarrow> validEntries tm xs \<and> validEntries tm ys"
  by (simp add: validEntries_def)

lemma valid_addEntry:
  "validEntries tm s \<Longrightarrow> tm now \<noteq> None \<Longrightarrow> validEntries tm (addEntry newId now payload s)"
  by (simp add: addEntry_def validEntries_def)

lemma valid_deleteEntry: "validEntries tm s \<Longrightarrow> validEntries tm (deleteEntry i s)"
  by (auto simp: deleteEntry_def validEntries_set)

lemma valid_updateEntry:
  "validEntries tm s \<Longrightarrow> (case u_date payload of None \<Rightarrow> True | Some d \<Rightarrow> tm d \<noteq> None) \<Longrightarrow>
   validEntries tm (updateEntry i payload s)"
  by (auto simp: updateEntry_def validEntries_set merge_payload_def split: option.splits)

lemma valid_importEntries:
  assumes "validEntries tm s" "validEntries tm imported"
  shows "validEntries tm (importEntries tm fresh imported s)"
proof -
  have "validEntries tm (uniqueNewEntries s imported)"
    using assms(2) set_uniqueNew validEntries_subset unfolding uniqueNewEntries_def by blast
  then show ?thesis
    using assms(1) by (simp add: importEntries_def validEntries_sort validEntries_append validEntries_sanitize)
qed

lemma entriesToCompile_set:
  "set (entriesToCompile tm t s) = {e \<in> set s. ticketNumber e = Some t}"
  by (auto simp: entriesToCompile_def set_Array_sort)

lemma entriesToCompile_length:
  "length (entriesToCompile tm t s) = length (filter (\<lambda>e. ticketNumber e = Some t) s)"
  by (simp add: entriesToCompile_def length_Array_sort)

lemma valid_compile:
  assumes "validEntries tm s"
  shows "validEntries tm (compileEntriesByTicketNumber tm fmt newId t s)"
proof (cases "length (filter (\<lambda>e. ticketNumber e = Some t) s) < 2")
  case True
  then show ?thesis using assms by (simp add: compileEntriesByTicketNumber_def)
next
  case False
  then have "entriesToCompile tm t s \<noteq> []"
    using entriesToCompile_length [of tm t s] by auto
  then have "last (entriesToCompile tm t s) \<in> set s"
    using entriesToCompile_set [of tm t s] last_in_set by blast
  then have "tm (date (last (entriesToCompile tm t s))) \<noteq> None"
    using assms by (simp add: validEntries_set)
  then show ?thesis
    using False assms
    by (auto simp: compileEntriesByTicketNumber_def compiledEntry_def Let_def validEntries_set)
qed

lemma valid_apply_mutation:
  "validEntries tm s \<Longrightarrow> validMutation tm m \<Longrightarrow> validEntries tm (apply_mutation tm fmt m s)"
  by (cases m) (simp_all add: valid_addEntry valid_deleteEntry valid_updateEntry
      valid_importEntries valid_compile)

lemma run_snoc:
  "run tm fmt (ms @ [m]) s = sortedEntries tm (apply_mutation tm fmt m (run tm fmt ms s))"
  by (simp add: run_def)

lemma run_stored: "run tm fmt ms s = sortedEntries tm (stored tm fmt ms s)"
proof (cases ms rule: rev_cases)
  case Nil
  then show ?thesis by (simp add: run_def stored_def)
next
  case (snoc ms' m)
  then show ?thesis by (simp add: run_snoc stored_def)
qed

lemma valid_run:
  "validEntries tm s \<Longrightarrow> list_all (validMutation tm) ms \<Longrightarrow> validEntries tm (run tm fmt ms s)"
proof (induction ms rule: rev_induct)
  case Nil
  then show ?case by (simp add: run_def sortedEntries_def validEntries_sort)
next
  case (snoc m ms)
  then show ?case
    by (simp add: run_snoc sortedEntries_def validEntries_sort valid_apply_mutation)
qed

lemma valid_stored:
  "validEntries tm s \<Longrightarrow> list_all (validMutation tm) ms \<Longrightarrow> validEntries tm (stored tm fmt ms s)"
proof (cases ms rule: rev_cases)
  case Nil
  assume "validEntries tm s"
  then show ?thesis using Nil by (simp add: stored_def)
next
  case (snoc ms' m)
  assume "validEntries tm s" "list_all (validMutation tm) ms"
  then show ?thesis using snoc by (simp add: stored_def valid_run valid_apply_mutation)
qed

section \<open>The ascending sort of the compilation\<close>

lemma cmpAsc_le: "tm (date x) \<noteq> None \<Longrightarrow> tm (date y) \<noteq> None \<Longrightarrow>
  cmp_value (cmpAsc tm x y) \<le> 0 \<longleftrightarrow> notOlder tm y x"
  by (auto simp: cmp_value_def cmpAsc_def num_minus_def notOlder_def split: option.splits)

lemma cmpAsc_gt: "tm (date x) \<noteq> None \<Longrightarrow> tm (date y) \<noteq> None \<Longrightarrow>
  \<not> cmp_value (cmpAsc tm x y) \<le> 0 \<Longrightarrow> notOlder tm x y"
  by (auto simp: cmp_value_def cmpAsc_def num_minus_def notOlder_def split: option.splits)

lemma sortedAsc_insert_by:
  assumes "sorted_wrt (\<lambda>a b. notOlder tm b a) ys" "tm (date x) \<noteq> None" "\<forall>y\<in>set ys. tm (date y) \<noteq> None"
  shows "sorted_wrt (\<lambda>a b. notOlder tm b a) (insert_by (cmpAsc tm) x ys)"
  using assms
proof (induction ys)
  case Nil
  then show ?case by simp
next
  case (Cons y ys)
  show ?case
  proof (cases "cmp_value (cmpAsc tm x y) \<le> 0")
    case True
    then have xy: "notOlder tm y x" using Cons.prems cmpAsc_le by simp
    have "\<forall>z\<in>set ys. notOlder tm z x"
      using xy Cons.prems(1) notOlder_trans by auto
    then show ?thesis using True xy Cons.prems(1) by simp
  next
    case False
    then have yx: "notOlder tm x y" using Cons.prems cmpAsc_gt by simp
    have "sorted_wrt (\<lambda>a b. notOlder tm b a) (insert_by (cmpAsc tm) x ys)"
      using Cons by simp
    then show ?thesis using False yx Cons.prems(1) by (auto simp: set_insert_by)
  qed
qed

lemma sortedAsc_Array_sort:
  "validEntries tm xs \<Longrightarrow> sortedAsc tm (Array_sort (cmpAsc tm) xs)"
  unfolding sortedAsc_def Array_sort_def
proof (induction xs)
  case Nil
  then show ?case by simp
next
  case (Cons x xs)
  have "set (foldr (insert_by (cmpAsc tm)) xs []) = set xs"
    using set_Array_sort [of "cmpAsc tm" xs] by (simp add: Array_sort_def)
  then show ?case using Cons sortedAsc_insert_by [of tm "foldr (insert_by (cmpAsc tm)) xs []" x]
    by (simp add: validEntries_set)
qed

lemma notOlder_refl: "tm (date a) \<noteq> None \<Longrightarrow> notOlder tm a a"
  by (auto simp: notOlder_def)

lemma sortedAsc_last:
  assumes "sortedAsc tm xs" "validEntries tm xs" "e \<in> set xs"
  shows "notOlder tm (last xs) e"
proof -
  from assms(3) have ne: "xs \<noteq> []" by auto
  then have xs: "xs = butlast xs @ [last xs]" by simp
  have "sorted_wrt (\<lambda>a b. notOlder tm b a) (butlast xs @ [last xs])"
    using assms(1) xs by (simp add: sortedAsc_def)
  then have "\<forall>a\<in>set (butlast xs). notOlder tm (last xs) a"
    by (simp add: sorted_wrt_append)
  moreover have "notOlder tm (last xs) (last xs)"
    using assms(2) ne by (simp add: validEntries_set notOlder_refl)
  moreover have "e \<in> set (butlast xs) \<or> e = last xs"
    using assms(3) xs by (metis Un_iff insert_iff list.set(2) set_append empty_iff list.set(1))
  ultimately show ?thesis by auto
qed

lemma in_order_prepend: "in_order cs s \<Longrightarrow> in_order cs (p @ s)"
proof (induction rule: in_order.cases)
  case (in_order_Nil s)
  then show ?case by (simp add: in_order.in_order_Nil)
next
  case (in_order_Cons cs post c pre)
  have "in_order (c # cs) ((p @ pre) @ c @ post)"
    using in_order_Cons by (intro in_order.in_order_Cons) simp
  then show ?case using in_order_Cons by simp
qed

lemma in_order_block:
  assumes "in_order cs rest"
  shows "in_order (content e # cs) (block fmt e @ rest)"
proof -
  have "in_order (content e # cs)
     ((''--- Entry from '' @ fmt (date e) @ '' ---'' @ [CHR 0x0A]) @ content e @ rest)"
    using assms by (rule in_order_Cons)
  then show ?thesis by (simp add: block_def)
qed

lemma in_order_join_blocks:
  "in_order (map content es) (join sep (map (block fmt) es))"
proof (induction es)
  case Nil
  then show ?case by (simp add: in_order_Nil)
next
  case (Cons e es)
  show ?case
  proof (cases es)
    case Nil
    have "in_order (content e # []) (block fmt e @ [])"
      by (rule in_order_block) (rule in_order_Nil)
    then show ?thesis using Nil by simp
  next
    case (Cons e' es')
    have "in_order (map content es) (sep @ join sep (map (block fmt) es))"
      using Cons.IH in_order_prepend by blast
    then have "in_order (content e # map content es)
       (block fmt e @ (sep @ join sep (map (block fmt) es)))"
      by (rule in_order_block)
    then show ?thesis using Cons by simp
  qed
qed

section \<open>Occurrence in order, computed\<close>

lemma after_first_Some: "after_first c s = Some rest \<Longrightarrow> \<exists>pre. s = pre @ c @ rest"
proof (induction s)
  case Nil
  then show ?case by (auto split: if_splits)
next
  case (Cons x xs)
  show ?case
  proof (cases "take (length c) (x # xs) = c")
    case True
    then have "rest = drop (length c) (x # xs)" using Cons.prems by simp
    then have "x # xs = [] @ c @ rest" using True by (metis append_Nil append_take_drop_id)
    then show ?thesis by blast
  next
    case False
    then have "after_first c xs = Some rest" using Cons.prems by simp
    then obtain pre where "xs = pre @ c @ rest" using Cons.IH by blast
    then have "x # xs = (x # pre) @ c @ rest" by simp
    then show ?thesis by blast
  qed
qed

lemma occur_in_order_sound: "occur_in_order cs s \<Longrightarrow> in_order cs s"
proof (induction cs arbitrary: s)
  case Nil
  then show ?case by (simp add: in_order_Nil)
next
  case (Cons c cs)
  then obtain rest where r: "after_first c s = Some rest" "occur_in_order cs rest"
    by (auto split: option.splits)
  then obtain pre where "s = pre @ c @ rest" using after_first_Some by blast
  then show ?case using Cons.IH [OF r(2)] in_order_Cons by blast
qed


lemma after_first_complete: "\<exists>x. after_first c (pre @ c @ post) = Some (x @ post)"
proof (induction pre)
  case Nil
  show ?case
  proof (cases "c @ post")
    case Nil
    then show ?thesis by simp
  next
    case (Cons y ys)
    have "take (length c) (c @ post) = c" by simp
    then have "after_first c (c @ post) = Some (drop (length c) (c @ post))"
      unfolding Cons by simp
    then show ?thesis by simp
  qed
next
  case (Cons p ps)
  show ?case
  proof (cases "take (length c) (p # ps @ c @ post) = c")
    case True
    then have a: "after_first c ((p # ps) @ c @ post) = Some (drop (length c) (p # ps @ c @ post))"
      by simp
    have "drop (length c) (((p # ps) @ c) @ post) = drop (length c) ((p # ps) @ c) @ post"
      by (simp only: drop_append) simp
    then have "drop (length c) (p # ps @ c @ post) = drop (length c) ((p # ps) @ c) @ post"
      by simp
    then show ?thesis using a by simp
  next
    case False
    then have "after_first c ((p # ps) @ c @ post) = after_first c (ps @ c @ post)" by simp
    then show ?thesis using Cons.IH by simp
  qed
qed

lemma occur_in_order_prepend: "occur_in_order cs s \<Longrightarrow> occur_in_order cs (x @ s)"
proof (induction cs arbitrary: s x)
  case Nil
  then show ?case by simp
next
  case (Cons c cs)
  then obtain rest where r: "after_first c s = Some rest" "occur_in_order cs rest"
    by (auto split: option.splits)
  then obtain pre where "s = pre @ c @ rest" using after_first_Some by blast
  then have "x @ s = (x @ pre) @ c @ rest" by simp
  then obtain y where "after_first c (x @ s) = Some (y @ rest)"
    using after_first_complete [of c "x @ pre" rest] by auto
  then show ?case using Cons.IH [OF r(2), of y] by simp
qed

lemma in_order_occur: "in_order cs s \<Longrightarrow> occur_in_order cs s"
proof (induction rule: in_order.induct)
  case (in_order_Nil s)
  then show ?case by simp
next
  case (in_order_Cons cs post c pre)
  obtain x where "after_first c (pre @ c @ post) = Some (x @ post)"
    using after_first_complete by blast
  then show ?case using occur_in_order_prepend [OF in_order_Cons.IH, of x] by simp
qed

lemma in_order_iff: "in_order cs s \<longleftrightarrow> occur_in_order cs s"
  using in_order_occur occur_in_order_sound by blast

section \<open>Compilation below two matches\<close>

text \<open>
  C8. When no entry or exactly one entry bears the ticket number,
  \<open>compileEntriesByTicketNumber\<close> returns before it sets the state: the entries are
  exactly what they were.
\<close>

theorem compile_noop:
  assumes "length (filter (\<lambda>e. ticketNumber e = Some t) entries) \<le> 1"
  shows "compileEntriesByTicketNumber tm fmt newId t entries = entries"
  using assms by (simp add: compileEntriesByTicketNumber_def)

theorem compile_noop_witness:
  "length (filter (\<lambda>e. ticketNumber e = Some ''7'')
      [\<lparr>eid = ''1'', date = ''2024-01-15T14:30:00.000Z'', content = ''a'', ticketNumber = Some ''7'', imageUrl = None\<rparr>,
       \<lparr>eid = ''2'', date = ''2024-02-10T11:00:00.000Z'', content = ''b'', ticketNumber = None, imageUrl = None\<rparr>]) \<le> 1
   \<and> compileEntriesByTicketNumber (\<lambda>d. None) (\<lambda>d. d) ''n'' ''7''
      [\<lparr>eid = ''1'', date = ''2024-01-15T14:30:00.000Z'', content = ''a'', ticketNumber = Some ''7'', imageUrl = None\<rparr>,
       \<lparr>eid = ''2'', date = ''2024-02-10T11:00:00.000Z'', content = ''b'', ticketNumber = None, imageUrl = None\<rparr>]
    = [\<lparr>eid = ''1'', date = ''2024-01-15T14:30:00.000Z'', content = ''a'', ticketNumber = Some ''7'', imageUrl = None\<rparr>,
       \<lparr>eid = ''2'', date = ''2024-02-10T11:00:00.000Z'', content = ''b'', ticketNumber = None, imageUrl = None\<rparr>]"
  using compile_noop [of "''7''"
      "[\<lparr>eid = ''1'', date = ''2024-01-15T14:30:00.000Z'', content = ''a'', ticketNumber = Some ''7'', imageUrl = None\<rparr>,
       \<lparr>eid = ''2'', date = ''2024-02-10T11:00:00.000Z'', content = ''b'', ticketNumber = None, imageUrl = None\<rparr>]"
      "\<lambda>d. None" "\<lambda>d. d" "''n''"]
  by simp

section \<open>Updating an entry\<close>

lemma updateEntry_emptyContent:
  "updateEntry i emptyContent entries = map (\<lambda>e. if eid e = i then e\<lparr>content := []\<rparr> else e) entries"
  by (simp add: updateEntry_def emptyContent_def merge_payload_def)

lemma updateEntry_absent:
  "\<forall>e\<in>set entries. eid e \<noteq> j \<Longrightarrow> updateEntry j payload entries = entries"
  unfolding updateEntry_def by (induction entries) simp_all

text \<open>
  C9. \<open>updateEntry i { content: "" }\<close> cannot fail (the updater is a total map and
  spread), and the snapshot that follows holds exactly the former entries with the content
  of every entry of id \<open>i\<close> emptied: when an entry of id \<open>i\<close> existed it is in
  the snapshot, and every entry of that id in the snapshot has the empty content. When no
  entry has the id \<open>j\<close>, \<open>updateEntry j\<close> returns the entries as they were,
  whatever the payload.
\<close>

theorem update_semantics:
  "mset (sortedEntries tm (updateEntry i emptyContent entries)) =
      mset (map (\<lambda>e. if eid e = i then e\<lparr>content := []\<rparr> else e) entries)
   \<and> ((\<exists>e\<in>set entries. eid e = i) \<longrightarrow>
        (\<exists>e\<in>set (sortedEntries tm (updateEntry i emptyContent entries)). eid e = i))
   \<and> (\<forall>e\<in>set (sortedEntries tm (updateEntry i emptyContent entries)). eid e = i \<longrightarrow> content e = [])
   \<and> ((\<forall>e\<in>set entries. eid e \<noteq> j) \<longrightarrow> updateEntry j payload entries = entries)"
proof -
  let ?f = "\<lambda>e. if eid e = i then e\<lparr>content := []\<rparr> else e"
  have m: "mset (sortedEntries tm (updateEntry i emptyContent entries)) = mset (map ?f entries)"
    by (simp add: sortedEntries_def mset_Array_sort updateEntry_emptyContent)
  have s: "set (sortedEntries tm (updateEntry i emptyContent entries)) = ?f ` set entries"
    by (simp add: sortedEntries_def set_Array_sort updateEntry_emptyContent)
  have a: "(\<exists>e\<in>set entries. eid e = i) \<longrightarrow>
        (\<exists>e\<in>set (sortedEntries tm (updateEntry i emptyContent entries)). eid e = i)"
  proof
    assume "\<exists>e\<in>set entries. eid e = i"
    then obtain e where e: "e \<in> set entries" "eid e = i" by blast
    have "?f e \<in> ?f ` set entries" using e(1) by (rule imageI)
    moreover have "eid (?f e) = i" using e(2) by simp
    ultimately show "\<exists>e\<in>set (sortedEntries tm (updateEntry i emptyContent entries)). eid e = i"
      unfolding s by blast
  qed
  have b: "\<forall>e\<in>set (sortedEntries tm (updateEntry i emptyContent entries)). eid e = i \<longrightarrow> content e = []"
  proof (intro ballI impI)
    fix e assume "e \<in> set (sortedEntries tm (updateEntry i emptyContent entries))" and i: "eid e = i"
    then obtain x where x: "e = ?f x" unfolding s by blast
    show "content e = []"
    proof (cases "eid x = i")
      case True
      then show ?thesis using x by simp
    next
      case False
      then show ?thesis using x i by simp
    qed
  qed
  have c: "(\<forall>e\<in>set entries. eid e \<noteq> j) \<longrightarrow> updateEntry j payload entries = entries"
    using updateEntry_absent by blast
  show ?thesis by (rule conjI [OF m conjI [OF a conjI [OF b c]]])
qed

text \<open>An instance: two entries, the first of id \<open>1\<close>; no entry has the id \<open>9\<close>.\<close>

theorem update_semantics_witness:
  "(\<exists>e\<in>set [\<lparr>eid = ''1'', date = ''2024-01-15T14:30:00.000Z'', content = ''a'', ticketNumber = Some ''7'', imageUrl = None\<rparr>,
       \<lparr>eid = ''2'', date = ''2024-02-10T11:00:00.000Z'', content = ''b'', ticketNumber = None, imageUrl = None\<rparr>]. eid e = ''1'')
   \<and> mset (sortedEntries (\<lambda>d. None) (updateEntry ''1'' emptyContent
      [\<lparr>eid = ''1'', date = ''2024-01-15T14:30:00.000Z'', content = ''a'', ticketNumber = Some ''7'', imageUrl = None\<rparr>,
       \<lparr>eid = ''2'', date = ''2024-02-10T11:00:00.000Z'', content = ''b'', ticketNumber = None, imageUrl = None\<rparr>]))
     = mset [\<lparr>eid = ''1'', date = ''2024-01-15T14:30:00.000Z'', content = [], ticketNumber = Some ''7'', imageUrl = None\<rparr>,
       \<lparr>eid = ''2'', date = ''2024-02-10T11:00:00.000Z'', content = ''b'', ticketNumber = None, imageUrl = None\<rparr>]
   \<and> (\<exists>e\<in>set (sortedEntries (\<lambda>d. None) (updateEntry ''1'' emptyContent
      [\<lparr>eid = ''1'', date = ''2024-01-15T14:30:00.000Z'', content = ''a'', ticketNumber = Some ''7'', imageUrl = None\<rparr>,
       \<lparr>eid = ''2'', date = ''2024-02-10T11:00:00.000Z'', content = ''b'', ticketNumber = None, imageUrl = None\<rparr>])). eid e = ''1'' \<and> content e = [])
   \<and> updateEntry ''9'' emptyContent
      [\<lparr>eid = ''1'', date = ''2024-01-15T14:30:00.000Z'', content = ''a'', ticketNumber = Some ''7'', imageUrl = None\<rparr>,
       \<lparr>eid = ''2'', date = ''2024-02-10T11:00:00.000Z'', content = ''b'', ticketNumber = None, imageUrl = None\<rparr>]
     = [\<lparr>eid = ''1'', date = ''2024-01-15T14:30:00.000Z'', content = ''a'', ticketNumber = Some ''7'', imageUrl = None\<rparr>,
       \<lparr>eid = ''2'', date = ''2024-02-10T11:00:00.000Z'', content = ''b'', ticketNumber = None, imageUrl = None\<rparr>]"
  using update_semantics [of "\<lambda>d. None" "''1''"
      "[\<lparr>eid = ''1'', date = ''2024-01-15T14:30:00.000Z'', content = ''a'', ticketNumber = Some ''7'', imageUrl = None\<rparr>,
       \<lparr>eid = ''2'', date = ''2024-02-10T11:00:00.000Z'', content = ''b'', ticketNumber = None, imageUrl = None\<rparr>]"
      "''9''" emptyContent]
  by auto

section \<open>Importing\<close>

text \<open>
  C10. The state after an import is, up to order, the surviving candidates (with their
  ids filled in) together with the previous entries: every previous entry is still there,
  with all its fields.
\<close>

theorem import_keeps_existing:
  "mset (importEntries tm fresh importedEntries prevEntries) =
     mset (sanitize fresh 0 (uniqueNewEntries prevEntries importedEntries)) + mset prevEntries
   \<and> mset prevEntries \<subseteq># mset (importEntries tm fresh importedEntries prevEntries)"
  by (simp add: importEntries_def mset_Array_sort)

lemma signature_sanitize: "map signature (sanitize fresh k es) = map signature es"
  by (induction es arbitrary: k) (simp_all add: signature_def)

lemma uniqueNew_covers: "signature ` set es \<subseteq> signature ` set (uniqueNew sigs es) \<union> sigs"
  by (induction es arbitrary: sigs) auto

lemma uniqueNew_absorbed: "signature ` set es \<subseteq> sigs \<Longrightarrow> uniqueNew sigs es = []"
  by (induction es arbitrary: sigs) auto

lemma set_map_Array_sort: "set (map f (Array_sort cmp xs)) = set (map f xs)"
  by (simp add: set_Array_sort)

lemma signatures_importEntries:
  "signature ` set importedEntries \<subseteq> set (map signature (importEntries tm fresh importedEntries prevEntries))"
proof -
  have "set (map signature (importEntries tm fresh importedEntries prevEntries)) =
      set (map signature (sanitize fresh 0 (uniqueNewEntries prevEntries importedEntries))) \<union> set (map signature prevEntries)"
    by (simp only: importEntries_def set_map_Array_sort map_append set_append)
  then have "set (map signature (importEntries tm fresh importedEntries prevEntries)) =
      signature ` set (uniqueNew (set (map signature prevEntries)) importedEntries) \<union> set (map signature prevEntries)"
    by (simp add: signature_sanitize uniqueNewEntries_def)
  then show ?thesis using uniqueNew_covers by metis
qed

lemma second_import_absorbed:
  assumes "set (map signature st) = set (map signature (importEntries tm fresh batch s))"
  shows "uniqueNewEntries st batch = []"
  unfolding uniqueNewEntries_def assms
  by (rule uniqueNew_absorbed) (rule signatures_importEntries)

text \<open>
  C3. After a batch has been imported, importing the same batch again finds every
  candidate's signature among the existing ones: no candidate survives, and the state
  keeps its length and its entries, up to order. The last conjunct says the same of the
  snapshots, with the renders in between.
\<close>

theorem import_twice:
  "uniqueNewEntries (importEntries tm fresh batch s) batch = []
   \<and> length (importEntries tm fresh' batch (importEntries tm fresh batch s)) =
       length (importEntries tm fresh batch s)
   \<and> mset (importEntries tm fresh' batch (importEntries tm fresh batch s)) =
       mset (importEntries tm fresh batch s)
   \<and> mset (run tm fmt [Import fresh batch, Import fresh' batch] s) = mset (run tm fmt [Import fresh batch] s)"
proof -
  have a: "uniqueNewEntries (importEntries tm fresh batch s) batch = []"
    by (rule second_import_absorbed) simp
  have m: "mset (importEntries tm fresh' batch (importEntries tm fresh batch s)) =
       mset (importEntries tm fresh batch s)"
    using a by (simp add: importEntries_def [of tm fresh' batch] mset_Array_sort)
  have l: "length (importEntries tm fresh' batch (importEntries tm fresh batch s)) =
       length (importEntries tm fresh batch s)"
    using m by (metis size_mset)
  have "set (map signature (sortedEntries tm (importEntries tm fresh batch (sortedEntries tm s)))) =
      set (map signature (importEntries tm fresh batch (sortedEntries tm s)))"
    by (simp only: sortedEntries_def set_map_Array_sort)
  then have "uniqueNewEntries (sortedEntries tm (importEntries tm fresh batch (sortedEntries tm s))) batch = []"
    by (rule second_import_absorbed)
  then have r: "mset (run tm fmt [Import fresh batch, Import fresh' batch] s) = mset (run tm fmt [Import fresh batch] s)"
    by (simp add: run_def sortedEntries_def mset_Array_sort importEntries_def [of tm fresh' batch])
  show ?thesis by (rule conjI [OF a conjI [OF l conjI [OF m r]]])
qed

text \<open>
  C5. The set of \<open>importEntries\<close> holds the strings \<open>date-content\<close>, not the pairs. An
  existing entry of date \<open>2024-01\<close> and content \<open>15-x\<close> and a candidate of date
  \<open>2024-01-15\<close> and content \<open>x\<close> have the same string \<open>2024-01-15-x\<close>: the candidate is
  dropped although neither its date nor its content equals the entry's, and two such
  candidates in one batch collapse into the first.
\<close>

theorem import_signature_collision:
  "uniqueNewEntries
     [\<lparr>eid = ''1'', date = ''2024-01'', content = ''15-x'', ticketNumber = None, imageUrl = None\<rparr>]
     [\<lparr>eid = ''2'', date = ''2024-01-15'', content = ''x'', ticketNumber = None, imageUrl = None\<rparr>] = []
   \<and> importEntries isoTime fresh
     [\<lparr>eid = ''2'', date = ''2024-01-15'', content = ''x'', ticketNumber = None, imageUrl = None\<rparr>]
     [\<lparr>eid = ''1'', date = ''2024-01'', content = ''15-x'', ticketNumber = None, imageUrl = None\<rparr>]
     = [\<lparr>eid = ''1'', date = ''2024-01'', content = ''15-x'', ticketNumber = None, imageUrl = None\<rparr>]
   \<and> uniqueNewEntries []
     [\<lparr>eid = ''1'', date = ''2024-01'', content = ''15-x'', ticketNumber = None, imageUrl = None\<rparr>,
      \<lparr>eid = ''2'', date = ''2024-01-15'', content = ''x'', ticketNumber = None, imageUrl = None\<rparr>]
     = [\<lparr>eid = ''1'', date = ''2024-01'', content = ''15-x'', ticketNumber = None, imageUrl = None\<rparr>]"
  by code_simp

text \<open>Where the two dates have the same length, as the strings of \<open>toISOString\<close> for
  the years 0 to 9999 have, equal signatures do mean equal dates and equal contents.\<close>

lemma signature_inj_same_length:
  "length (date a) = length (date b) \<Longrightarrow>
   signature a = signature b \<longleftrightarrow> date a = date b \<and> content a = content b"
  by (auto simp: signature_def)

section \<open>Adding an entry\<close>

text \<open>The guard of \<open>addEntry\<close> as it is: the state is left as it was exactly when the
  trimmed content is empty; the image plays no part.\<close>

lemma addEntry_noop_iff:
  "addEntry newId now payload prevEntries = prevEntries \<longleftrightarrow> trim (p_content payload) = []"
  by (simp add: addEntry_def)

text \<open>
  C4. An add is to be a no-op exactly when the content is blank and no image is present,
  and the editor's submit button follows this: it is disabled under that condition only.
  The guard of \<open>addEntry\<close> looks at the content alone. For the draft of content
  \<open>"  "\<close> with an image attached the button is enabled, the submit reaches \<open>addEntry\<close>,
  and \<open>addEntry\<close> returns without creating the entry, although "content blank and image
  absent" is false of the payload.
\<close>

theorem addEntry_blank_with_image:
  "addEntry ''n1'' ''2024-01-15T14:30:00.000Z''
      \<lparr>p_content = ''  '', p_ticketNumber = None, p_imageUrl = Some ''data:image/png;base64,AAAA''\<rparr> [] = []
   \<and> \<not> (trim (p_content \<lparr>p_content = ''  '', p_ticketNumber = None, p_imageUrl = Some ''data:image/png;base64,AAAA''\<rparr>) = []
        \<and> p_imageUrl \<lparr>p_content = ''  '', p_ticketNumber = None, p_imageUrl = Some ''data:image/png;base64,AAAA''\<rparr> = None)
   \<and> \<not> submitDisabled ''  '' (Some ''data:image/png;base64,AAAA'')
   \<and> handleSubmit ''n1'' ''2024-01-15T14:30:00.000Z'' ''  '' [] (Some ''data:image/png;base64,AAAA'') [] = []"
  by (simp add: addEntry_def handleSubmit_def submitDisabled_def trim_def isSpace_def)

section \<open>The order of the snapshot\<close>

text \<open>
  C1, for dates that parse. From a state whose dates all parse, and along mutations that
  bring in no date that does not parse (the clock string of an add, the date of an update
  payload, the dates of the imported candidates), the snapshot is sorted by date, most
  recent first, and the entries of one and the same time stand in the order the stored
  array had them.
\<close>

theorem snapshot_sorted:
  assumes "validEntries tm s" and "list_all (validMutation tm) ms"
  shows "sortedDesc tm (run tm fmt ms s) \<and>
         (\<forall>k. filter (\<lambda>e. tm (date e) = Some k) (run tm fmt ms s) =
              filter (\<lambda>e. tm (date e) = Some k) (stored tm fmt ms s))"
  using assms
  by (simp add: run_stored sortedEntries_def sortedDesc_Array_sort valid_stored stable_Array_sort_desc)

text \<open>An instance with one mutation of each kind.\<close>

theorem snapshot_sorted_witness:
  "validEntries isoTime
     [\<lparr>eid = ''1'', date = ''2023-06-05T10:00:00.000Z'', content = ''a'', ticketNumber = Some ''7'', imageUrl = None\<rparr>,
      \<lparr>eid = ''2'', date = ''2024-01-15T14:30:00.000Z'', content = ''b'', ticketNumber = Some ''7'', imageUrl = None\<rparr>]
   \<and> list_all (validMutation isoTime)
     [Add ''3'' ''2024-05-20T09:00:00.000Z'' \<lparr>p_content = ''c'', p_ticketNumber = None, p_imageUrl = None\<rparr>,
      Update ''1'' \<lparr>u_date = Some ''2024-05-20T09:00:00.000Z'', u_content = None, u_ticketNumber = None, u_imageUrl = None\<rparr>,
      Import (\<lambda>k. ''new'') [\<lparr>eid = [], date = ''2024-02-10'', content = ''d'', ticketNumber = None, imageUrl = None\<rparr>],
      Compile ''4'' ''7'',
      Delete ''3'']
   \<and> sortedDesc isoTime (run isoTime (\<lambda>d. d)
     [Add ''3'' ''2024-05-20T09:00:00.000Z'' \<lparr>p_content = ''c'', p_ticketNumber = None, p_imageUrl = None\<rparr>,
      Update ''1'' \<lparr>u_date = Some ''2024-05-20T09:00:00.000Z'', u_content = None, u_ticketNumber = None, u_imageUrl = None\<rparr>,
      Import (\<lambda>k. ''new'') [\<lparr>eid = [], date = ''2024-02-10'', content = ''d'', ticketNumber = None, imageUrl = None\<rparr>],
      Compile ''4'' ''7'',
      Delete ''3'']
     [\<lparr>eid = ''1'', date = ''2023-06-05T10:00:00.000Z'', content = ''a'', ticketNumber = Some ''7'', imageUrl = None\<rparr>,
      \<lparr>eid = ''2'', date = ''2024-01-15T14:30:00.000Z'', content = ''b'', ticketNumber = Some ''7'', imageUrl = None\<rparr>])"
proof -
  let ?s = "[\<lparr>eid = ''1'', date = ''2023-06-05T10:00:00.000Z'', content = ''a'', ticketNumber = Some ''7'', imageUrl = None\<rparr>,
      \<lparr>eid = ''2'', date = ''2024-01-15T14:30:00.000Z'', content = ''b'', ticketNumber = Some ''7'', imageUrl = None\<rparr>]"
  let ?ms = "[Add ''3'' ''2024-05-20T09:00:00.000Z'' \<lparr>p_content = ''c'', p_ticketNumber = None, p_imageUrl = None\<rparr>,
      Update ''1'' \<lparr>u_date = Some ''2024-05-20T09:00:00.000Z'', u_content = None, u_ticketNumber = None, u_imageUrl = None\<rparr>,
      Import (\<lambda>k. ''new'') [\<lparr>eid = [], date = ''2024-02-10'', content = ''d'', ticketNumber = None, imageUrl = None\<rparr>],
      Compile ''4'' ''7'',
      Delete ''3'']"
  have v: "validEntries isoTime ?s" by code_simp
  have m: "list_all (validMutation isoTime) ?ms" by code_simp
  show ?thesis using v m snapshot_sorted [OF v m, of "\<lambda>d. d"] by blast
qed

text \<open>
  C1 as stated fails on a date that does not parse. The comparator of the sort then
  yields \<open>NaN\<close>, which the sort reads as "equal": imported into the empty journal, an
  entry of 2020, an entry whose date is \<open>not a date\<close> and an entry of 2021 stay in this
  order, and the snapshot shows the entry of 2020 before the entry of 2021.
\<close>

theorem snapshot_unsorted_with_invalid_date:
  "run isoTime (\<lambda>d. d)
     [Import (\<lambda>k. ''new'')
        [\<lparr>eid = ''a'', date = ''2020-01-01T00:00:00.000Z'', content = ''first'', ticketNumber = None, imageUrl = None\<rparr>,
         \<lparr>eid = ''g'', date = ''not a date'', content = ''second'', ticketNumber = None, imageUrl = None\<rparr>,
         \<lparr>eid = ''b'', date = ''2021-01-01T00:00:00.000Z'', content = ''third'', ticketNumber = None, imageUrl = None\<rparr>]] []
   = [\<lparr>eid = ''a'', date = ''2020-01-01T00:00:00.000Z'', content = ''first'', ticketNumber = None, imageUrl = None\<rparr>,
      \<lparr>eid = ''g'', date = ''not a date'', content = ''second'', ticketNumber = None, imageUrl = None\<rparr>,
      \<lparr>eid = ''b'', date = ''2021-01-01T00:00:00.000Z'', content = ''third'', ticketNumber = None, imageUrl = None\<rparr>]
   \<and> isoTime ''2020-01-01T00:00:00.000Z'' = Some 1577836800000
   \<and> isoTime ''not a date'' = None
   \<and> isoTime ''2021-01-01T00:00:00.000Z'' = Some 1609459200000
   \<and> \<not> sortedDesc isoTime (run isoTime (\<lambda>d. d)
     [Import (\<lambda>k. ''new'')
        [\<lparr>eid = ''a'', date = ''2020-01-01T00:00:00.000Z'', content = ''first'', ticketNumber = None, imageUrl = None\<rparr>,
         \<lparr>eid = ''g'', date = ''not a date'', content = ''second'', ticketNumber = None, imageUrl = None\<rparr>,
         \<lparr>eid = ''b'', date = ''2021-01-01T00:00:00.000Z'', content = ''third'', ticketNumber = None, imageUrl = None\<rparr>]] [])"
  by code_simp

section \<open>Compilation of two or more entries\<close>

lemma entriesToCompile_mset:
  "mset (entriesToCompile tm t entries) = mset (filter (\<lambda>e. ticketNumber e = Some t) entries)"
  by (simp add: entriesToCompile_def mset_Array_sort)

lemma entriesToCompile_sorted:
  "validEntries tm (filter (\<lambda>e. ticketNumber e = Some t) entries) \<Longrightarrow>
   sortedAsc tm (entriesToCompile tm t entries)"
  by (simp add: entriesToCompile_def sortedAsc_Array_sort)

text \<open>
  C2. When \<open>N \<ge> 2\<close> entries bear the ticket number, the new state is the compiled
  entry followed by the entries that do not bear the ticket number,
  \<open>originalCount - N + 1\<close> entries in all. The compiled entry has the generated id and the
  ticket number; its date and its image are those of one and the same absorbed entry; and
  its content holds the contents of the absorbed entries one after the other, in the order
  of \<open>entriesToCompile\<close>, which is a permutation of the absorbed entries. All this holds
  whatever the dates are. When the dates of the absorbed entries parse, that one entry is
  at least as recent as every absorbed entry, and the order of \<open>entriesToCompile\<close> is
  ascending by date, so the contents stand oldest first.
\<close>

theorem compile_merges:
  assumes n: "2 \<le> length (filter (\<lambda>e. ticketNumber e = Some t) entries)"
  shows "compileEntriesByTicketNumber tm fmt newId t entries =
           compiledEntry tm fmt newId t entries # filter (\<lambda>e. ticketNumber e \<noteq> Some t) entries
     \<and> length (compileEntriesByTicketNumber tm fmt newId t entries) =
           length entries - length (filter (\<lambda>e. ticketNumber e = Some t) entries) + 1
     \<and> eid (compiledEntry tm fmt newId t entries) = newId
     \<and> ticketNumber (compiledEntry tm fmt newId t entries) = Some t
     \<and> (\<exists>src\<in>set entries. ticketNumber src = Some t
           \<and> date (compiledEntry tm fmt newId t entries) = date src
           \<and> imageUrl (compiledEntry tm fmt newId t entries) = imageUrl src
           \<and> (validEntries tm (filter (\<lambda>e. ticketNumber e = Some t) entries) \<longrightarrow>
                (\<forall>e\<in>set entries. ticketNumber e = Some t \<longrightarrow> notOlder tm src e)))
     \<and> mset (entriesToCompile tm t entries) = mset (filter (\<lambda>e. ticketNumber e = Some t) entries)
     \<and> in_order (map content (entriesToCompile tm t entries))
           (content (compiledEntry tm fmt newId t entries))
     \<and> (validEntries tm (filter (\<lambda>e. ticketNumber e = Some t) entries) \<longrightarrow>
           sortedAsc tm (entriesToCompile tm t entries))"
proof -
  let ?srcs = "entriesToCompile tm t entries"
  let ?c = "compiledEntry tm fmt newId t entries"
  let ?v = "validEntries tm (filter (\<lambda>e. ticketNumber e = Some t) entries)"
  have c1: "compileEntriesByTicketNumber tm fmt newId t entries =
           ?c # filter (\<lambda>e. ticketNumber e \<noteq> Some t) entries"
    using n by (simp add: compileEntriesByTicketNumber_def)
  have "length (filter (\<lambda>e. ticketNumber e = Some t) entries)
        + length (filter (\<lambda>e. ticketNumber e \<noteq> Some t) entries) = length entries"
    by (rule sum_length_filter_compl)
  then have c2: "length (compileEntriesByTicketNumber tm fmt newId t entries) =
           length entries - length (filter (\<lambda>e. ticketNumber e = Some t) entries) + 1"
    using c1 by simp
  have c3: "eid ?c = newId" by (simp add: compiledEntry_def Let_def)
  have c4: "ticketNumber ?c = Some t" by (simp add: compiledEntry_def Let_def)
  have ne: "?srcs \<noteq> []" using n entriesToCompile_length [of tm t entries] by auto
  have lastin: "last ?srcs \<in> set ?srcs" using ne by (rule last_in_set)
  then have l1: "last ?srcs \<in> set entries" and l2: "ticketNumber (last ?srcs) = Some t"
    by (simp_all add: entriesToCompile_set)
  have srt: "?v \<longrightarrow> sortedAsc tm ?srcs"
    using entriesToCompile_sorted by blast
  have l3: "?v \<longrightarrow> (\<forall>e\<in>set entries. ticketNumber e = Some t \<longrightarrow> notOlder tm (last ?srcs) e)"
  proof (intro impI ballI)
    fix e assume v: ?v and "e \<in> set entries" "ticketNumber e = Some t"
    then have e: "e \<in> set ?srcs" by (simp add: entriesToCompile_set)
    have vs: "validEntries tm ?srcs" using v by (simp add: entriesToCompile_def validEntries_sort)
    have "sortedAsc tm ?srcs" using v by (rule entriesToCompile_sorted)
    then show "notOlder tm (last ?srcs) e" using vs e by (rule sortedAsc_last)
  qed
  have l4: "date ?c = date (last ?srcs)" and l5: "imageUrl ?c = imageUrl (last ?srcs)"
    by (simp_all add: compiledEntry_def Let_def)
  have c5: "\<exists>src\<in>set entries. ticketNumber src = Some t
           \<and> date ?c = date src \<and> imageUrl ?c = imageUrl src
           \<and> (?v \<longrightarrow> (\<forall>e\<in>set entries. ticketNumber e = Some t \<longrightarrow> notOlder tm src e))"
    using l1 l2 l3 l4 l5 by (intro bexI [of _ "last ?srcs"] conjI)
  have c6: "mset ?srcs = mset (filter (\<lambda>e. ticketNumber e = Some t) entries)"
    by (rule entriesToCompile_mset)
  have c7: "in_order (map content ?srcs) (content ?c)"
    by (simp add: compiledEntry_def Let_def in_order_join_blocks)
  show ?thesis
    by (rule conjI [OF c1 conjI [OF c2 conjI [OF c3 conjI [OF c4 conjI [OF c5 conjI [OF c6 conjI [OF c7 srt]]]]]]])
qed

text \<open>An instance: two entries of ticket \<open>7\<close>, whose dates parse, and one without a
  ticket.\<close>

theorem compile_merges_witness:
  "2 \<le> length (filter (\<lambda>e. ticketNumber e = Some ''7'')
     [\<lparr>eid = ''2'', date = ''2024-01-15T14:30:00.000Z'', content = ''b'', ticketNumber = Some ''7'', imageUrl = Some ''img-2''\<rparr>,
      \<lparr>eid = ''3'', date = ''2023-12-24T08:00:00.000Z'', content = ''c'', ticketNumber = None, imageUrl = None\<rparr>,
      \<lparr>eid = ''1'', date = ''2023-06-05T10:00:00.000Z'', content = ''a'', ticketNumber = Some ''7'', imageUrl = Some ''img-1''\<rparr>])
   \<and> validEntries isoTime (filter (\<lambda>e. ticketNumber e = Some ''7'')
     [\<lparr>eid = ''2'', date = ''2024-01-15T14:30:00.000Z'', content = ''b'', ticketNumber = Some ''7'', imageUrl = Some ''img-2''\<rparr>,
      \<lparr>eid = ''3'', date = ''2023-12-24T08:00:00.000Z'', content = ''c'', ticketNumber = None, imageUrl = None\<rparr>,
      \<lparr>eid = ''1'', date = ''2023-06-05T10:00:00.000Z'', content = ''a'', ticketNumber = Some ''7'', imageUrl = Some ''img-1''\<rparr>])
   \<and> length (compileEntriesByTicketNumber isoTime (\<lambda>d. d) ''n'' ''7''
     [\<lparr>eid = ''2'', date = ''2024-01-15T14:30:00.000Z'', content = ''b'', ticketNumber = Some ''7'', imageUrl = Some ''img-2''\<rparr>,
      \<lparr>eid = ''3'', date = ''2023-12-24T08:00:00.000Z'', content = ''c'', ticketNumber = None, imageUrl = None\<rparr>,
      \<lparr>eid = ''1'', date = ''2023-06-05T10:00:00.000Z'', content = ''a'', ticketNumber = Some ''7'', imageUrl = Some ''img-1''\<rparr>])
     = 2
   \<and> in_order (map content (entriesToCompile isoTime ''7''
     [\<lparr>eid = ''2'', date = ''2024-01-15T14:30:00.000Z'', content = ''b'', ticketNumber = Some ''7'', imageUrl = Some ''img-2''\<rparr>,
      \<lparr>eid = ''3'', date = ''2023-12-24T08:00:00.000Z'', content = ''c'', ticketNumber = None, imageUrl = None\<rparr>,
      \<lparr>eid = ''1'', date = ''2023-06-05T10:00:00.000Z'', content = ''a'', ticketNumber = Some ''7'', imageUrl = Some ''img-1''\<rparr>]))
     (content (compiledEntry isoTime (\<lambda>d. d) ''n'' ''7''
     [\<lparr>eid = ''2'', date = ''2024-01-15T14:30:00.000Z'', content = ''b'', ticketNumber = Some ''7'', imageUrl = Some ''img-2''\<rparr>,
      \<lparr>eid = ''3'', date = ''2023-12-24T08:00:00.000Z'', content = ''c'', ticketNumber = None, imageUrl = None\<rparr>,
      \<lparr>eid = ''1'', date = ''2023-06-05T10:00:00.000Z'', content = ''a'', ticketNumber = Some ''7'', imageUrl = Some ''img-1''\<rparr>]))
   \<and> sortedAsc isoTime (entriesToCompile isoTime ''7''
     [\<lparr>eid = ''2'', date = ''2024-01-15T14:30:00.000Z'', content = ''b'', ticketNumber = Some ''7'', imageUrl = Some ''img-2''\<rparr>,
      \<lparr>eid = ''3'', date = ''2023-12-24T08:00:00.000Z'', content = ''c'', ticketNumber = None, imageUrl = None\<rparr>,
      \<lparr>eid = ''1'', date = ''2023-06-05T10:00:00.000Z'', content = ''a'', ticketNumber = Some ''7'', imageUrl = Some ''img-1''\<rparr>])
   \<and> (\<exists>src\<in>set
     [\<lparr>eid = ''2'', date = ''2024-01-15T14:30:00.000Z'', content = ''b'', ticketNumber = Some ''7'', imageUrl = Some ''img-2''\<rparr>,
      \<lparr>eid = ''3'', date = ''2023-12-24T08:00:00.000Z'', content = ''c'', ticketNumber = None, imageUrl = None\<rparr>,
      \<lparr>eid = ''1'', date = ''2023-06-05T10:00:00.000Z'', content = ''a'', ticketNumber = Some ''7'', imageUrl = Some ''img-1''\<rparr>].
        ticketNumber src = Some ''7''
      \<and> date (compiledEntry isoTime (\<lambda>d. d) ''n'' ''7''
     [\<lparr>eid = ''2'', date = ''2024-01-15T14:30:00.000Z'', content = ''b'', ticketNumber = Some ''7'', imageUrl = Some ''img-2''\<rparr>,
      \<lparr>eid = ''3'', date = ''2023-12-24T08:00:00.000Z'', content = ''c'', ticketNumber = None, imageUrl = None\<rparr>,
      \<lparr>eid = ''1'', date = ''2023-06-05T10:00:00.000Z'', content = ''a'', ticketNumber = Some ''7'', imageUrl = Some ''img-1''\<rparr>]) = date src
      \<and> notOlder isoTime src
          \<lparr>eid = ''2'', date = ''2024-01-15T14:30:00.000Z'', content = ''b'', ticketNumber = Some ''7'', imageUrl = Some ''img-2''\<rparr>
      \<and> notOlder isoTime src
          \<lparr>eid = ''1'', date = ''2023-06-05T10:00:00.000Z'', content = ''a'', ticketNumber = Some ''7'', imageUrl = Some ''img-1''\<rparr>)"
proof -
  let ?es = "[\<lparr>eid = ''2'', date = ''2024-01-15T14:30:00.000Z'', content = ''b'', ticketNumber = Some ''7'', imageUrl = Some ''img-2''\<rparr>,
      \<lparr>eid = ''3'', date = ''2023-12-24T08:00:00.000Z'', content = ''c'', ticketNumber = None, imageUrl = None\<rparr>,
      \<lparr>eid = ''1'', date = ''2023-06-05T10:00:00.000Z'', content = ''a'', ticketNumber = Some ''7'', imageUrl = Some ''img-1''\<rparr>]"
  let ?c = "compiledEntry isoTime (\<lambda>d. d) ''n'' ''7'' ?es"
  have n: "2 \<le> length (filter (\<lambda>e. ticketNumber e = Some ''7'') ?es)" by simp
  have v: "validEntries isoTime (filter (\<lambda>e. ticketNumber e = Some ''7'') ?es)" by code_simp
  have l: "length ?es - length (filter (\<lambda>e. ticketNumber e = Some ''7'') ?es) + 1 = 2" by simp
  note m = compile_merges [OF n, of isoTime "\<lambda>d. d" "''n''"]
  have a: "length (compileEntriesByTicketNumber isoTime (\<lambda>d. d) ''n'' ''7'' ?es) = 2"
    using m l by simp
  have b: "in_order (map content (entriesToCompile isoTime ''7'' ?es)) (content ?c)"
    using m by blast
  have c: "sortedAsc isoTime (entriesToCompile isoTime ''7'' ?es)"
    using m v by blast
  from m v obtain src where s: "src \<in> set ?es" "ticketNumber src = Some ''7''"
      "date ?c = date src"
      "\<forall>e\<in>set ?es. ticketNumber e = Some ''7'' \<longrightarrow> notOlder isoTime src e"
    by blast
  have d: "\<exists>src\<in>set ?es. ticketNumber src = Some ''7'' \<and> date ?c = date src
      \<and> notOlder isoTime src
          \<lparr>eid = ''2'', date = ''2024-01-15T14:30:00.000Z'', content = ''b'', ticketNumber = Some ''7'', imageUrl = Some ''img-2''\<rparr>
      \<and> notOlder isoTime src
          \<lparr>eid = ''1'', date = ''2023-06-05T10:00:00.000Z'', content = ''a'', ticketNumber = Some ''7'', imageUrl = Some ''img-1''\<rparr>"
    using s by (intro bexI [of _ src] conjI) simp_all
  show ?thesis by (rule conjI [OF n conjI [OF v conjI [OF a conjI [OF b conjI [OF c d]]]]])
qed

text \<open>
  C2 as stated fails, in its date, its image and its order, on a date that does not
  parse. In the state below (which a render
  leaves as it is) the three entries bear the ticket \<open>7\<close>; the ascending sort leaves
  them in the stored order, the entry of 2020 is taken for the newest, and the compiled
  entry gets its date and its image, although the entry of 2021 is absorbed too; the
  compiled text has the entry of 2021 before the entry of 2020.
\<close>

theorem compile_date_with_invalid_date:
  "map date (compileEntriesByTicketNumber isoTime (\<lambda>d. d) ''n'' ''7''
     [\<lparr>eid = ''b'', date = ''2021-01-01T00:00:00.000Z'', content = ''later'', ticketNumber = Some ''7'', imageUrl = Some ''img-b''\<rparr>,
      \<lparr>eid = ''g'', date = ''not a date'', content = ''undated'', ticketNumber = Some ''7'', imageUrl = None\<rparr>,
      \<lparr>eid = ''c'', date = ''2020-01-01T00:00:00.000Z'', content = ''earlier'', ticketNumber = Some ''7'', imageUrl = Some ''img-c''\<rparr>])
   = [''2020-01-01T00:00:00.000Z'']
   \<and> map imageUrl (compileEntriesByTicketNumber isoTime (\<lambda>d. d) ''n'' ''7''
     [\<lparr>eid = ''b'', date = ''2021-01-01T00:00:00.000Z'', content = ''later'', ticketNumber = Some ''7'', imageUrl = Some ''img-b''\<rparr>,
      \<lparr>eid = ''g'', date = ''not a date'', content = ''undated'', ticketNumber = Some ''7'', imageUrl = None\<rparr>,
      \<lparr>eid = ''c'', date = ''2020-01-01T00:00:00.000Z'', content = ''earlier'', ticketNumber = Some ''7'', imageUrl = Some ''img-c''\<rparr>])
   = [Some ''img-c'']
   \<and> map content (entriesToCompile isoTime ''7''
     [\<lparr>eid = ''b'', date = ''2021-01-01T00:00:00.000Z'', content = ''later'', ticketNumber = Some ''7'', imageUrl = Some ''img-b''\<rparr>,
      \<lparr>eid = ''g'', date = ''not a date'', content = ''undated'', ticketNumber = Some ''7'', imageUrl = None\<rparr>,
      \<lparr>eid = ''c'', date = ''2020-01-01T00:00:00.000Z'', content = ''earlier'', ticketNumber = Some ''7'', imageUrl = Some ''img-c''\<rparr>])
   = [''later'', ''undated'', ''earlier'']
   \<and> isoTime ''2020-01-01T00:00:00.000Z'' = Some 1577836800000
   \<and> isoTime ''2021-01-01T00:00:00.000Z'' = Some 1609459200000
   \<and> sortedEntries isoTime
     [\<lparr>eid = ''b'', date = ''2021-01-01T00:00:00.000Z'', content = ''later'', ticketNumber = Some ''7'', imageUrl = Some ''img-b''\<rparr>,
      \<lparr>eid = ''g'', date = ''not a date'', content = ''undated'', ticketNumber = Some ''7'', imageUrl = None\<rparr>,
      \<lparr>eid = ''c'', date = ''2020-01-01T00:00:00.000Z'', content = ''earlier'', ticketNumber = Some ''7'', imageUrl = Some ''img-c''\<rparr>]
   = [\<lparr>eid = ''b'', date = ''2021-01-01T00:00:00.000Z'', content = ''later'', ticketNumber = Some ''7'', imageUrl = Some ''img-b''\<rparr>,
      \<lparr>eid = ''g'', date = ''not a date'', content = ''undated'', ticketNumber = Some ''7'', imageUrl = None\<rparr>,
      \<lparr>eid = ''c'', date = ''2020-01-01T00:00:00.000Z'', content = ''earlier'', ticketNumber = Some ''7'', imageUrl = Some ''img-c''\<rparr>]"
  by code_simp

section \<open>The CSV adapter on concrete texts\<close>

text \<open>
  C6, as the code has it. The text with the header \<open>date,content,tags\<close> and the row
  \<open>2024-01-01,"Fixed, it",12 345 678\<close> parses to one entry, of content \<open>Fixed, it\<close>,
  of date \<open>2024-01-01T00:00:00.000Z\<close> and of ticket number \<open>12 345 678\<close>: the
  replacement \<open>/[^\d\s]/g\<close> removes what is neither a digit nor white space, and
  \<open>trim\<close> removes white space at the two ends only, so the inner spaces stay.
\<close>

theorem csv_example:
  "parseCSV isoTime now newId
     (''date,content,tags'' @ [CHR 0x0A] @ ''2024-01-01,'' @ [CHR 0x22] @ ''Fixed, it'' @ [CHR 0x22] @ '',12 345 678'')
   = Inr [\<lparr>eid = newId 1, date = ''2024-01-01T00:00:00.000Z'', content = ''Fixed, it'',
           ticketNumber = Some ''12 345 678'', imageUrl = None\<rparr>]"
  by code_simp

text \<open>C6 as stated fails: the ticket number of the entry is not \<open>12345678\<close>.\<close>

theorem csv_example_ticket_keeps_spaces:
  "parseCSV isoTime (\<lambda>i. ''2024-06-01T00:00:00.000Z'') (\<lambda>i. ''id'')
     (''date,content,tags'' @ [CHR 0x0A] @ ''2024-01-01,'' @ [CHR 0x22] @ ''Fixed, it'' @ [CHR 0x22] @ '',12 345 678'')
   = Inr [\<lparr>eid = ''id'', date = ''2024-01-01T00:00:00.000Z'', content = ''Fixed, it'',
           ticketNumber = Some ''12 345 678'', imageUrl = None\<rparr>]
   \<and> ticketNumber \<lparr>eid = ''id'', date = ''2024-01-01T00:00:00.000Z'', content = ''Fixed, it'',
           ticketNumber = Some ''12 345 678'', imageUrl = None\<rparr> \<noteq> Some ''12345678''"
  by code_simp

text \<open>
  When the header resolves a tags column, every row that is not blank and has enough
  columns for the date and the text but none at the tags index makes the parse throw,
  whatever its other fields are.
\<close>

lemma parseRow_short_of_tags:
  assumes "trim line \<noteq> []"
    and "max dateIdx textIdx < int (length (parseLine line))"
    and "int (length (parseLine line)) \<le> tagsIdx"
  shows "parseRow tm now newId dateIdx textIdx tagsIdx line = Inl TypeError"
proof -
  have "\<not> int (length (parseLine line)) \<le> max dateIdx textIdx"
    using assms(2) by linarith
  moreover have "tagsIdx \<noteq> - 1" and "\<not> tagsIdx < int (length (parseLine line))"
    using assms(3) by linarith+
  ultimately show ?thesis
    using assms(1) by (simp add: parseRow_def Let_def at_index_def)
qed

text \<open>
  C7. The guard of the row loop compares the number of columns with the date and the
  text index only. Under the header \<open>date,content,tags\<close> the row \<open>2024-01-02,hello\<close>
  has two columns and passes the guard; \<open>columns[2]\<close> is \<open>undefined\<close> and
  \<open>tags.match\<close> throws. The parse returns no entries at all, the well-formed row before
  it included.
\<close>

theorem csv_short_row_throws:
  "parseCSV isoTime now newId
     (''date,content,tags'' @ [CHR 0x0A] @ ''2024-01-01,first,12 345 678'' @ [CHR 0x0A] @ ''2024-01-02,hello'')
   = Inl TypeError"
  by code_simp

end
